theory Spec2Isabelle
  imports Complex_Main
begin

section \<open>Text primitives of the script\<close>

text \<open>
  The script \<^verbatim>\<open>scripts/benchmark_rag.py\<close> works on Python \<^verbatim>\<open>str\<close> values. A
  string is modelled as a \<^typ>\<open>string\<close>, each \<^typ>\<open>char\<close> standing for the code
  point of the same number (0 to 255). On that range the predicate used by
  \<^verbatim>\<open>str.split()\<close> and \<^verbatim>\<open>str.strip()\<close> and the mapping of \<^verbatim>\<open>str.lower()\<close>
  are the ones of CPython.
\<close>

definition isspace :: "char \<Rightarrow> bool" where
  "isspace c =
     (let n = (of_char c :: nat)
      in (9 \<le> n \<and> n \<le> 13) \<or> (28 \<le> n \<and> n \<le> 32) \<or> n = 133 \<or> n = 160)"

abbreviation nonspace :: "char \<Rightarrow> bool" where
  "nonspace c \<equiv> \<not> isspace c"

text \<open>
  \<^verbatim>\<open>text.split()\<close> with no separator: skip whitespace, cut one word at the next
  whitespace, repeat until the text is used up.
\<close>

function split_ws :: "string \<Rightarrow> string list" where
  "split_ws [] = []"
| "split_ws (c # cs) =
     (if isspace c then split_ws cs
      else (c # takeWhile nonspace cs) # split_ws (dropWhile nonspace cs))"
  by pat_completeness auto
termination
  by (relation "measure length") (auto simp: length_dropWhile_le le_imp_less_Suc)

text \<open>\<^verbatim>\<open>def count_tokens(text): return len(text.split())\<close>\<close>

definition count_tokens :: "string \<Rightarrow> int" where
  "count_tokens text = int (length (split_ws text))"

subsection \<open>The token count in the words of the specification\<close>

text \<open>
  A maximal run of non-whitespace characters is identified by the position where it
  starts: a non-whitespace character that is the first of the text or follows a
  whitespace character. \<open>count_runs\<close> counts these positions.
\<close>

definition run_start :: "string \<Rightarrow> nat \<Rightarrow> bool" where
  "run_start s i = (nonspace (s ! i) \<and> (i = 0 \<or> isspace (s ! (i - 1))))"

definition count_runs :: "string \<Rightarrow> nat" where
  "count_runs s = length (filter (run_start s) [0..<length s])"

text \<open>The same count as a single left-to-right scan; \<open>b\<close> says a run may start here.\<close>

fun runs_from :: "bool \<Rightarrow> string \<Rightarrow> nat" where
  "runs_from b [] = 0"
| "runs_from b (c # cs) = (if nonspace c \<and> b then 1 else 0) + runs_from (isspace c) cs"

subsection \<open>String operations used by the parser and the classifier\<close>

text \<open>Exceptions the modelled code can meet, and the text \<^verbatim>\<open>str(e)\<close> gives for them.\<close>

datatype exn = IndexError | ZeroDivisionError | OSError string

fun str_exn :: "exn \<Rightarrow> string" where
  "str_exn IndexError = ''list index out of range''"
| "str_exn ZeroDivisionError = ''division by zero''"
| "str_exn (OSError msg) = msg"

text \<open>\<^verbatim>\<open>s.startswith(p)\<close>, \<^verbatim>\<open>s.strip()\<close>, \<^verbatim>\<open>sub in s\<close>, \<^verbatim>\<open>s.find(sub)\<close>,
  \<^verbatim>\<open>s.split(sep)\<close> for a one-character separator, \<^verbatim>\<open>s.lower()\<close>.\<close>

definition startswith :: "string \<Rightarrow> string \<Rightarrow> bool" where
  "startswith p s = (take (length p) s = p)"

definition strip :: "string \<Rightarrow> string" where
  "strip s = rev (dropWhile isspace (rev (dropWhile isspace s)))"

fun contains :: "string \<Rightarrow> string \<Rightarrow> bool" where
  "contains sub [] = (sub = [])"
| "contains sub (c # cs) = (startswith sub (c # cs) \<or> contains sub cs)"

fun str_find :: "string \<Rightarrow> string \<Rightarrow> int" where
  "str_find sub [] = (if sub = [] then 0 else - 1)"
| "str_find sub (c # cs) =
     (if startswith sub (c # cs) then 0
      else (let r = str_find sub cs in if r < 0 then - 1 else r + 1))"

fun split_on :: "char \<Rightarrow> string \<Rightarrow> string list" where
  "split_on sep [] = [[]]"
| "split_on sep (c # cs) =
     (if c = sep then [] # split_on sep cs
      else (case split_on sep cs of
              [] \<Rightarrow> [[c]]
            | w # ws \<Rightarrow> (c # w) # ws))"

definition lower_char :: "char \<Rightarrow> char" where
  "lower_char c =
     (let n = (of_char c :: nat)
      in if (65 \<le> n \<and> n \<le> 90) \<or> (192 \<le> n \<and> n \<le> 222 \<and> n \<noteq> 215)
         then char_of (n + 32) else c)"

definition lower :: "string \<Rightarrow> string" where
  "lower s = map lower_char s"

text \<open>The subscript \<^verbatim>\<open>xs[i]\<close> of a list: from the front for \<open>i \<ge> 0\<close>, from the back
  for \<open>i < 0\<close>, \<^verbatim>\<open>IndexError\<close> outside of \<open>- len(xs) \<le> i < len(xs)\<close>.\<close>

definition getitem :: "'a list \<Rightarrow> int \<Rightarrow> exn + 'a" where
  "getitem xs i =
     (if 0 \<le> i \<and> i < int (length xs) then Inr (xs ! nat i)
      else if i < 0 \<and> - int (length xs) \<le> i then Inr (xs ! nat (int (length xs) + i))
      else Inl IndexError)"

text \<open>\<^verbatim>\<open>str(i)\<close> for the chunk numbers of \<^verbatim>\<open>enumerate(chunks, 1)\<close>.\<close>

definition digit_char :: "nat \<Rightarrow> char" where
  "digit_char d = char_of (48 + d)"

fun str_nat :: "nat \<Rightarrow> string" where
  "str_nat n = (if n < 10 then [digit_char n] else str_nat (n div 10) @ [digit_char (n mod 10)])"

declare str_nat.simps [simp del]

abbreviation NL :: char where
  "NL \<equiv> CHR 0x0A"

abbreviation QUOTE :: char where
  "QUOTE \<equiv> CHR 0x27"

section \<open>Retrieval strategy\<close>

text \<open>A fragment is the dict \<^verbatim>\<open>{'name': ..., 'file': ..., 'code': ...}\<close>
  (\<open>file\<close> is a keyword of Isabelle, so the fields carry the prefix \<open>chunk_\<close>).\<close>

record chunk =
  chunk_name :: string
  chunk_file :: string
  chunk_code :: string

text \<open>
  What \<^verbatim>\<open>subprocess.run([...], capture_output=True, text=True, cwd=...)\<close> does: it
  raises, or it completes with a return code, the captured standard output and the
  captured standard error.
\<close>

datatype proc_result = Raised exn | Completed int string string

text \<open>What the script prints, one constructor per message of the source.\<close>

datatype ratio = Finite real | Infinite

datatype out =
    ErrorRunningIndexer string
  | ErrorRunningSearch string
  | WarningFileNotFound string
  | ErrorReading string string
  | RagSearching string
  | NoChunksFound
  | RagFound nat
  | RagContextTokens int
  | NaiveIncluding
  | NaiveIncluded nat
  | TotalFileSize int
  | NaiveContextTokens int
  | Usage
  | UsageExample
  | Rule
  | Title
  | QueryLine string
  | Blank
  | ComparisonResults
  | RagTokens int
  | NaiveTokens int
  | TokenSavings int real
  | RagSaves int
  | Efficiency ratio
  | RagUsesMore int
  | CouldNotComplete
  | TokenizerNote
  | RagContextSavedTo string
  | NaiveContextSavedTo string

text \<open>The test of the first branch of the line loop: the stripped line starts with
  \<^verbatim>\<open>"1."\<close>, ..., or \<^verbatim>\<open>"5."\<close>.\<close>

definition is_rank_line :: "string \<Rightarrow> bool" where
  "is_rank_line line =
     (let s = strip line
      in startswith ''1.'' s \<or> startswith ''2.'' s \<or> startswith ''3.'' s
         \<or> startswith ''4.'' s \<or> startswith ''5.'' s)"

text \<open>One pass of the body of \<^verbatim>\<open>for line in lines\<close>, on the pair
  \<^verbatim>\<open>(current_chunk, chunks)\<close>.\<close>

fun parse_line :: "chunk option \<times> chunk list \<Rightarrow> string \<Rightarrow> exn + chunk option \<times> chunk list" where
  "parse_line (current_chunk, chunks) line =
     (if is_rank_line line then
        (if contains ''Score:'' line then
           (let parts = split_on QUOTE line
            in if length parts \<ge> 2 then
                 (case getitem parts 1 of
                    Inl e \<Rightarrow> Inl e
                  | Inr nm \<Rightarrow>
                     (case (if contains ''in '' line then getitem parts (- 1) else Inr ''unknown'') of
                        Inl e \<Rightarrow> Inl e
                      | Inr f \<Rightarrow> Inr (Some \<lparr>chunk_name = nm, chunk_file = f, chunk_code = []\<rparr>, chunks)))
               else Inr (current_chunk, chunks))
         else Inr (current_chunk, chunks))
      else if startswith ''Lines'' (strip line) \<and> current_chunk \<noteq> None then
        (let code_start = str_find '': '' line + 2
         in if code_start > 1 then
              (case current_chunk of
                 Some ch \<Rightarrow> Inr (None, chunks @ [ch\<lparr>chunk_code := drop (nat code_start) line\<rparr>])
               | None \<Rightarrow> Inr (current_chunk, chunks))
            else Inr (current_chunk, chunks))
      else Inr (current_chunk, chunks))"

fun parse_lines :: "chunk option \<times> chunk list \<Rightarrow> string list \<Rightarrow> exn + chunk option \<times> chunk list" where
  "parse_lines st [] = Inr st"
| "parse_lines st (line # lines) =
     (case parse_line st line of
        Inl e \<Rightarrow> Inl e
      | Inr st' \<Rightarrow> parse_lines st' lines)"

text \<open>The parser of the search output: \<^verbatim>\<open>chunks = []\<close>, \<^verbatim>\<open>current_chunk = None\<close>,
  the loop over \<^verbatim>\<open>result.stdout.split('\n')\<close>, then \<^verbatim>\<open>return chunks\<close>.\<close>

definition parse_output :: "string \<Rightarrow> exn + chunk list" where
  "parse_output stdout =
     (case parse_lines (None, []) (split_on NL stdout) of
        Inl e \<Rightarrow> Inl e
      | Inr (current_chunk, chunks) \<Rightarrow> Inr chunks)"

text \<open>
  \<open>run_indexer_search\<close>: the external search is the parameter \<open>search\<close>, from the
  query and \<^verbatim>\<open>top_k\<close> to what the subprocess call does. The whole body stands in
  \<^verbatim>\<open>try: ... except Exception as e\<close>. The result is what was printed and the
  returned list.
\<close>

definition run_indexer_search ::
  "(string \<Rightarrow> nat \<Rightarrow> proc_result) \<Rightarrow> string \<Rightarrow> nat \<Rightarrow> out list \<times> chunk list" where
  "run_indexer_search search query top_k =
     (case search query top_k of
        Raised e \<Rightarrow> ([ErrorRunningSearch (str_exn e)], [])
      | Completed returncode stdout stderr \<Rightarrow>
          if returncode \<noteq> 0 then ([ErrorRunningIndexer stderr], [])
          else (case parse_output stdout of
                  Inl e \<Rightarrow> ([ErrorRunningSearch (str_exn e)], [])
                | Inr chunks \<Rightarrow> ([], chunks)))"

text \<open>The loop \<^verbatim>\<open>for i, chunk in enumerate(chunks, 1)\<close> appending to \<^verbatim>\<open>rag_context\<close>.\<close>

fun add_chunks :: "string \<Rightarrow> nat \<Rightarrow> chunk list \<Rightarrow> string" where
  "add_chunks rag_context i [] = rag_context"
| "add_chunks rag_context i (ch # chunks) =
     add_chunks
       (rag_context @ ''--- Chunk '' @ str_nat i @ '': '' @ chunk_name ch @ '' from '' @ chunk_file ch
          @ '' ---'' @ [NL] @ chunk_code ch @ [NL, NL])
       (Suc i) chunks"

definition benchmark_rag_approach ::
  "(string \<Rightarrow> nat \<Rightarrow> proc_result) \<Rightarrow> string \<Rightarrow> out list \<times> int \<times> string" where
  "benchmark_rag_approach search query =
     (let (printed, chunks) = run_indexer_search search query 5
      in if chunks = [] then ([RagSearching query] @ printed @ [NoChunksFound], 0, [])
         else
           (let rag_context =
                  add_chunks (''Query: '' @ query @ [NL, NL] @ ''Relevant code chunks:'' @ [NL, NL])
                    1 chunks;
                token_count = count_tokens rag_context
            in ([RagSearching query] @ printed
                  @ [RagFound (length chunks), RagContextTokens token_count],
                token_count, rag_context)))"

section \<open>Naive strategy\<close>

text \<open>\<^verbatim>\<open>any(word in query_lower for word in [...])\<close>\<close>

definition any_word :: "string list \<Rightarrow> string \<Rightarrow> bool" where
  "any_word ws query_lower = list_ex (\<lambda>word. contains word query_lower) ws"

text \<open>\<^verbatim>\<open>list(dict.fromkeys(xs))\<close>: the keys of a dict keep the order in which they were
  first inserted.\<close>

definition insert_key :: "'a list \<Rightarrow> 'a \<Rightarrow> 'a list" where
  "insert_key ks k = (if k \<in> set ks then ks else ks @ [k])"

definition dict_fromkeys :: "'a list \<Rightarrow> 'a list" where
  "dict_fromkeys xs = foldl insert_key [] xs"

text \<open>The candidate files of \<open>benchmark_naive_approach\<close>: the four keyword tests, the
  default, the removal of duplicates.\<close>

definition relevant_files :: "string \<Rightarrow> string list" where
  "relevant_files query =
     (let query_lower = lower query;
          fs0 = [];
          fs1 = (if any_word [''cli'', ''command'', ''argument'', ''clap''] query_lower
                 then fs0 @ [''src/main.rs'', ''src/bin/indexer.rs''] else fs0);
          fs2 = (if any_word [''voice'', ''audio'', ''record''] query_lower
                 then fs1 @ [''src/voice/mod.rs'', ''src/voice/capture.rs''] else fs1);
          fs3 = (if any_word [''llm'', ''gemini'', ''api''] query_lower
                 then fs2 @ [''src/llm/gemini_client.rs''] else fs2);
          fs4 = (if any_word [''index'', ''search'', ''chunk'', ''embed''] query_lower
                 then fs3 @ [''src/index/chunker.rs'', ''src/index/embedder.rs'',
                             ''src/index/vector_store.rs'']
                 else fs3);
          fs5 = (if fs4 = [] then [''src/main.rs'', ''Cargo.toml'', ''README.md''] else fs4)
      in dict_fromkeys fs5)"

text \<open>
  The file system as \<open>get_file_contents\<close> sees one candidate path: the file does not
  exist, it exists and is read as text, or the attempt raises (in \<^verbatim>\<open>exists\<close>,
  \<^verbatim>\<open>open\<close> or \<^verbatim>\<open>read\<close>, decoding included).
\<close>

datatype file_state = Missing | Readable string | Unreadable exn

text \<open>The dict \<^verbatim>\<open>{'file': ..., 'content': ..., 'size': ...}\<close>.\<close>

record file_info =
  fi_file :: string
  fi_content :: string
  fi_size :: int

text \<open>One pass of \<^verbatim>\<open>for file_path in file_paths\<close> on what was printed so far and
  \<^verbatim>\<open>contents\<close>; the \<^verbatim>\<open>try\<close> is inside the loop.\<close>

fun read_file ::
  "(string \<Rightarrow> file_state) \<Rightarrow> out list \<times> file_info list \<Rightarrow> string \<Rightarrow> out list \<times> file_info list" where
  "read_file fs (printed, contents) file_path =
     (case fs file_path of
        Readable content \<Rightarrow>
          (printed, contents @ [\<lparr>fi_file = file_path, fi_content = content,
                              fi_size = int (length content)\<rparr>])
      | Missing \<Rightarrow> (printed @ [WarningFileNotFound file_path], contents)
      | Unreadable e \<Rightarrow> (printed @ [ErrorReading file_path (str_exn e)], contents))"

definition get_file_contents ::
  "(string \<Rightarrow> file_state) \<Rightarrow> string list \<Rightarrow> out list \<times> file_info list" where
  "get_file_contents fs file_paths = foldl (read_file fs) ([], []) file_paths"

text \<open>The loop \<^verbatim>\<open>for file_info in file_contents\<close> on \<^verbatim>\<open>(naive_context, total_chars)\<close>.\<close>

fun add_file :: "string \<times> int \<Rightarrow> file_info \<Rightarrow> string \<times> int" where
  "add_file (naive_context, total_chars) fi =
     (naive_context @ ''--- File: '' @ fi_file fi @ '' ---'' @ [NL] @ fi_content fi @ [NL, NL],
      total_chars + fi_size fi)"

definition benchmark_naive_approach ::
  "(string \<Rightarrow> file_state) \<Rightarrow> string \<Rightarrow> out list \<times> int \<times> string" where
  "benchmark_naive_approach fs query =
     (let (printed, file_contents) = get_file_contents fs (relevant_files query);
          (naive_context, total_chars) =
             foldl add_file
               (''Query: '' @ query @ [NL, NL] @ ''Entire file contents:'' @ [NL, NL], 0)
               file_contents;
          token_count = count_tokens naive_context
      in ([NaiveIncluding] @ printed
            @ [NaiveIncluded (length file_contents), TotalFileSize total_chars,
               NaiveContextTokens token_count],
          token_count, naive_context))"

section \<open>Comparator and command line\<close>

text \<open>\<^verbatim>\<open>a / b\<close> on integers: the quotient as a float, \<^verbatim>\<open>ZeroDivisionError\<close> when
  \<open>b\<close> is 0. The float is modelled by the exact quotient.\<close>

definition truediv :: "int \<Rightarrow> int \<Rightarrow> exn + real" where
  "truediv a b = (if b = 0 then Inl ZeroDivisionError else Inr (real_of_int a / real_of_int b))"

text \<open>The comparison of \<open>main\<close>, from \<^verbatim>\<open>if rag_tokens > 0 and naive_tokens > 0\<close> to
  the end of its \<^verbatim>\<open>else\<close>: what it prints, or the exception it raises.\<close>

definition compare :: "int \<Rightarrow> int \<Rightarrow> exn + out list" where
  "compare rag_tokens naive_tokens =
     (if rag_tokens > 0 \<and> naive_tokens > 0 then
        (let savings = naive_tokens - rag_tokens
         in case truediv savings naive_tokens of
              Inl e \<Rightarrow> Inl e
            | Inr q \<Rightarrow>
               (let savings_percent = q * 100;
                    report = [RagTokens rag_tokens, NaiveTokens naive_tokens,
                              TokenSavings savings savings_percent]
                in if savings > 0 then
                     (case (if rag_tokens > 0
                            then (case truediv naive_tokens rag_tokens of
                                    Inl e \<Rightarrow> Inl e
                                  | Inr r \<Rightarrow> Inr (Finite r))
                            else Inr Infinite) of
                        Inl e \<Rightarrow> Inl e
                      | Inr efficiency \<Rightarrow> Inr (report @ [RagSaves savings, Efficiency efficiency]))
                   else Inr (report @ [RagUsesMore \<bar>savings\<bar>])))
      else Inr [CouldNotComplete])"

text \<open>
  The surroundings of one run: the argument vector, the external search, the file
  system under the project root, the value of \<^verbatim>\<open>os.getenv('SAVE_CONTEXTS', '')\<close>, and
  \<open>env_tempfile\<close>: what creating a \<^verbatim>\<open>NamedTemporaryFile\<close> with a suffix and writing a text
  to it does (it raises, or gives the name of the file).
\<close>

record env =
  env_argv :: "string list"
  env_search :: "string \<Rightarrow> nat \<Rightarrow> proc_result"
  env_files :: "string \<Rightarrow> file_state"
  env_save_contexts :: string
  env_tempfile :: "string \<Rightarrow> string \<Rightarrow> exn + string"

text \<open>How the process ends: \<^verbatim>\<open>sys.exit(n)\<close> or the return of \<open>main\<close> (status 0), or
  an exception nobody caught (the interpreter prints it and exits with status 1).\<close>

datatype outcome = Exit int | Uncaught exn

fun exit_status :: "outcome \<Rightarrow> int" where
  "exit_status (Exit n) = n"
| "exit_status (Uncaught e) = 1"

definition main :: "env \<Rightarrow> out list \<times> outcome" where
  "main ev =
     (case env_argv ev of
        [script, query] \<Rightarrow>
          (let (rag_log, rag_tokens, rag_context) = benchmark_rag_approach (env_search ev) query;
               (naive_log, naive_tokens, naive_context) = benchmark_naive_approach (env_files ev) query;
               printed = [Rule, Title, Rule, QueryLine query, Blank] @ rag_log @ [Blank]
                         @ naive_log @ [Blank] @ [Rule, ComparisonResults, Rule]
           in case compare rag_tokens naive_tokens of
                Inl e \<Rightarrow> (printed, Uncaught e)
              | Inr report \<Rightarrow>
                 (let printed = printed @ report @ [Blank, TokenizerNote]
                  in if lower (env_save_contexts ev) \<in> set [''true'', ''1'', ''yes''] then
                       (case env_tempfile ev ''_rag_context.txt'' rag_context of
                          Inl e \<Rightarrow> (printed, Uncaught e)
                        | Inr rag_name \<Rightarrow>
                           (case env_tempfile ev ''_naive_context.txt'' naive_context of
                              Inl e \<Rightarrow> (printed @ [RagContextSavedTo rag_name], Uncaught e)
                            | Inr naive_name \<Rightarrow>
                                (printed @ [RagContextSavedTo rag_name,
                                            NaiveContextSavedTo naive_name], Exit 0)))
                     else (printed, Exit 0)))
      | _ \<Rightarrow> ([Usage, UsageExample], Exit 1))"

section \<open>The notions of the specification\<close>

subsection \<open>A well-formed ranked block of search output\<close>

text \<open>
  One ranked entry as the specification describes it: an entry line that starts with
  the rank, carries a quoted name, a \<^verbatim>\<open>Score:\<close> marker and a source-file annotation
  introduced by \<^verbatim>\<open>in\<close>, and a body line \<^verbatim>\<open>Lines ...: <code>\<close>. The entry line is cut
  at the two quotes of the name: \<open>e_pre\<close> before the opening quote, \<open>e_mid\<close> from the
  closing quote to the file, then the file.
\<close>

record entry =
  e_pre :: string
  e_name :: string
  e_mid :: string
  e_file :: string
  e_lead :: string
  e_code :: string

definition header_line :: "entry \<Rightarrow> string" where
  "header_line e = e_pre e @ [QUOTE] @ e_name e @ [QUOTE] @ e_mid e @ e_file e"

definition body_line :: "entry \<Rightarrow> string" where
  "body_line e = e_lead e @ '': '' @ e_code e"

definition well_formed :: "entry \<Rightarrow> bool" where
  "well_formed e =
     (is_rank_line (header_line e)
      \<and> contains ''Score:'' (header_line e)
      \<and> contains ''in '' (header_line e)
      \<and> QUOTE \<notin> set (e_pre e @ e_name e @ e_mid e @ e_file e)
      \<and> NL \<notin> set (header_line e @ body_line e)
      \<and> startswith ''Lines'' (strip (body_line e))
      \<and> CHR '':'' \<notin> set (e_lead e))"

text \<open>The text of a block: every line ends with a newline.\<close>

definition block :: "entry list \<Rightarrow> string" where
  "block es = concat (map (\<lambda>e. header_line e @ [NL] @ body_line e @ [NL]) es)"

text \<open>The fragment the parser makes of a well-formed entry.\<close>

definition fragment_of :: "entry \<Rightarrow> chunk" where
  "fragment_of e = \<lparr>chunk_name = e_name e, chunk_file = e_mid e @ e_file e, chunk_code = e_code e\<rparr>"

subsection \<open>A block of five entries\<close>

text \<open>
  The entries of the block
  \<^verbatim>\<open>1. 'alpha' (Score: 0.91) in src/a.rs\<close> / \<^verbatim>\<open>   Lines 1-3: fn alpha() {}\<close>, ...,
  \<^verbatim>\<open>5. 'epsilon' (Score: 0.13) in src/e.rs\<close> / \<^verbatim>\<open>   Lines 2-6: fn epsilon() {}\<close>,
  and the fragments the parser makes of it.
\<close>

definition example_entries :: "entry list" where
  "example_entries =
     [\<lparr>e_pre = ''1. '', e_name = ''alpha'', e_mid = '' (Score: 0.91) in '', e_file = ''src/a.rs'',
       e_lead = ''   Lines 1-3'', e_code = ''fn alpha() {}''\<rparr>,
      \<lparr>e_pre = ''2. '', e_name = ''beta'', e_mid = '' (Score: 0.72) in '', e_file = ''src/b.rs'',
       e_lead = ''   Lines 10-12'', e_code = ''let b = a: 1;''\<rparr>,
      \<lparr>e_pre = ''3. '', e_name = ''gamma'', e_mid = '' (Score: 0.55) in '', e_file = ''src/c.rs'',
       e_lead = ''   Lines 7-9'', e_code = ''struct Gamma;''\<rparr>,
      \<lparr>e_pre = ''4. '', e_name = ''delta'', e_mid = '' (Score: 0.31) in '', e_file = ''src/d.rs'',
       e_lead = ''   Lines 4-5'', e_code = ''mod delta;''\<rparr>,
      \<lparr>e_pre = ''5. '', e_name = ''epsilon'', e_mid = '' (Score: 0.13) in '', e_file = ''src/e.rs'',
       e_lead = ''   Lines 2-6'', e_code = ''fn epsilon() {}''\<rparr>]"

definition example_chunks :: "chunk list" where
  "example_chunks =
     [\<lparr>chunk_name = ''alpha'', chunk_file = '' (Score: 0.91) in src/a.rs'',
       chunk_code = ''fn alpha() {}''\<rparr>,
      \<lparr>chunk_name = ''beta'', chunk_file = '' (Score: 0.72) in src/b.rs'',
       chunk_code = ''let b = a: 1;''\<rparr>,
      \<lparr>chunk_name = ''gamma'', chunk_file = '' (Score: 0.55) in src/c.rs'',
       chunk_code = ''struct Gamma;''\<rparr>,
      \<lparr>chunk_name = ''delta'', chunk_file = '' (Score: 0.31) in src/d.rs'',
       chunk_code = ''mod delta;''\<rparr>,
      \<lparr>chunk_name = ''epsilon'', chunk_file = '' (Score: 0.13) in src/e.rs'',
       chunk_code = ''fn epsilon() {}''\<rparr>]"

subsection \<open>Keyword groups\<close>

text \<open>The keyword groups, each with its candidate files, and their table in the order of
  the tests.\<close>

definition cli_group :: "string list \<times> string list" where
  "cli_group =
     ([''cli'', ''command'', ''argument'', ''clap''], [''src/main.rs'', ''src/bin/indexer.rs''])"

definition voice_group :: "string list \<times> string list" where
  "voice_group =
     ([''voice'', ''audio'', ''record''], [''src/voice/mod.rs'', ''src/voice/capture.rs''])"

definition llm_group :: "string list \<times> string list" where
  "llm_group = ([''llm'', ''gemini'', ''api''], [''src/llm/gemini_client.rs''])"

definition index_group :: "string list \<times> string list" where
  "index_group =
     ([''index'', ''search'', ''chunk'', ''embed''],
      [''src/index/chunker.rs'', ''src/index/embedder.rs'', ''src/index/vector_store.rs''])"

definition keyword_groups :: "(string list \<times> string list) list" where
  "keyword_groups = [cli_group, voice_group, llm_group, index_group]"

definition default_files :: "string list" where
  "default_files = [''src/main.rs'', ''Cargo.toml'', ''README.md'']"

text \<open>A group matches a query when one of its keywords occurs in the lower-cased query.\<close>

definition group_matches :: "string \<Rightarrow> string list \<times> string list \<Rightarrow> bool" where
  "group_matches query g = list_ex (\<lambda>word. contains word (lower query)) (fst g)"

text \<open>The union of lists in their order: each element once, at its first occurrence.\<close>

fun first_seen :: "'a list \<Rightarrow> 'a list" where
  "first_seen [] = []"
| "first_seen (x # xs) = x # removeAll x (first_seen xs)"

definition union_first_seen :: "'a list list \<Rightarrow> 'a list" where
  "union_first_seen xss = first_seen (concat xss)"

subsection \<open>Gathering files\<close>

text \<open>For one candidate path: the entry of a readable file, the warning of one that is
  missing or cannot be read.\<close>

definition entry_of :: "(string \<Rightarrow> file_state) \<Rightarrow> string \<Rightarrow> file_info option" where
  "entry_of fs p =
     (case fs p of
        Readable content \<Rightarrow>
          Some \<lparr>fi_file = p, fi_content = content, fi_size = int (length content)\<rparr>
      | _ \<Rightarrow> None)"

definition warning_of :: "(string \<Rightarrow> file_state) \<Rightarrow> string \<Rightarrow> out option" where
  "warning_of fs p =
     (case fs p of
        Missing \<Rightarrow> Some (WarningFileNotFound p)
      | Unreadable e \<Rightarrow> Some (ErrorReading p (str_exn e))
      | Readable content \<Rightarrow> None)"

definition readable :: "(string \<Rightarrow> file_state) \<Rightarrow> string \<Rightarrow> bool" where
  "readable fs p = (case fs p of Readable content \<Rightarrow> True | _ \<Rightarrow> False)"

section \<open>The cost metric\<close>

lemma runs_from_dropWhile: "runs_from False cs = runs_from True (dropWhile nonspace cs)"
  by (induction cs) auto

lemma length_split_ws: "length (split_ws s) = runs_from True s"
  by (induction s rule: split_ws.induct) (auto simp: runs_from_dropWhile)

lemma count_starts_scan:
  "length (filter (\<lambda>i. nonspace (s ! i) \<and> (if i = 0 then b else isspace (s ! (i - 1))))
     [0..<length s]) = runs_from b s"
proof (induction s arbitrary: b)
  case Nil
  show ?case by simp
next
  case (Cons c cs)
  have shift: "[0..<length (c # cs)] = 0 # map Suc [0..<length cs]"
    by (simp add: upt_conv_Cons map_Suc_upt del: upt_Suc)
  have tl: "length (filter ((\<lambda>i. nonspace ((c # cs) ! i) \<and>
                (if i = 0 then b else isspace ((c # cs) ! (i - 1)))) \<circ> Suc) [0..<length cs])
            = runs_from (isspace c) cs"
  proof -
    have "filter ((\<lambda>i. nonspace ((c # cs) ! i) \<and>
                (if i = 0 then b else isspace ((c # cs) ! (i - 1)))) \<circ> Suc) [0..<length cs]
          = filter (\<lambda>i. nonspace (cs ! i) \<and>
                (if i = 0 then isspace c else isspace (cs ! (i - 1)))) [0..<length cs]"
      by (rule filter_cong) (auto simp: nth_Cons split: nat.splits)
    then show ?thesis using Cons.IH [of "isspace c"] by simp
  qed
  show ?case
    unfolding shift using tl by (simp add: filter_map del: upt_Suc)
qed

lemma count_runs_scan: "count_runs s = runs_from True s"
proof -
  have "filter (run_start s) [0..<length s]
        = filter (\<lambda>i. nonspace (s ! i) \<and> (if i = 0 then True else isspace (s ! (i - 1))))
            [0..<length s]"
    by (rule filter_cong) (auto simp: run_start_def)
  then show ?thesis
    unfolding count_runs_def using count_starts_scan [of s True] by simp
qed

text \<open>
  C3: for every string the cost metric is a non-negative integer, the number of
  maximal non-whitespace runs of the string; the empty string costs 0 and
  \<^verbatim>\<open>"a b  c"\<close> costs 3. The metric is a total function with no error result.
\<close>

theorem count_tokens_counts_runs:
  "0 \<le> count_tokens s \<and> count_tokens s = int (count_runs s)
   \<and> count_tokens [] = 0 \<and> count_tokens ''a b  c'' = 3"
proof -
  have "count_tokens s = int (count_runs s)"
    by (simp add: count_tokens_def length_split_ws count_runs_scan)
  moreover have "count_tokens [] = 0"
    by (simp add: count_tokens_def)
  moreover have "count_tokens ''a b  c'' = 3"
    by (simp add: count_tokens_def isspace_def)
  ultimately show ?thesis by simp
qed

section \<open>The comparator\<close>

text \<open>
  C1: when both costs are strictly positive the comparator reports
  savings = naive cost - retrieval cost, the percentage savings / naive cost * 100 and,
  only when savings > 0, the efficiency ratio naive cost / retrieval cost; when
  savings \<le> 0 it reports a regression and no ratio. For retrieval cost 100 and naive
  cost 400 it reports savings 300, 75 percent and the ratio 4.
\<close>

theorem compare_positive_costs:
  assumes "0 < rag_tokens" and "0 < naive_tokens"
  shows "compare rag_tokens naive_tokens =
           Inr ([RagTokens rag_tokens, NaiveTokens naive_tokens,
                 TokenSavings (naive_tokens - rag_tokens)
                   (real_of_int (naive_tokens - rag_tokens) / real_of_int naive_tokens * 100)]
                @ (if naive_tokens - rag_tokens > 0
                   then [RagSaves (naive_tokens - rag_tokens),
                         Efficiency (Finite (real_of_int naive_tokens / real_of_int rag_tokens))]
                   else [RagUsesMore \<bar>naive_tokens - rag_tokens\<bar>]))
         \<and> compare 100 400 =
               Inr [RagTokens 100, NaiveTokens 400, TokenSavings 300 75, RagSaves 300,
                    Efficiency (Finite 4)]"
proof
  show "compare rag_tokens naive_tokens =
           Inr ([RagTokens rag_tokens, NaiveTokens naive_tokens,
                 TokenSavings (naive_tokens - rag_tokens)
                   (real_of_int (naive_tokens - rag_tokens) / real_of_int naive_tokens * 100)]
                @ (if naive_tokens - rag_tokens > 0
                   then [RagSaves (naive_tokens - rag_tokens),
                         Efficiency (Finite (real_of_int naive_tokens / real_of_int rag_tokens))]
                   else [RagUsesMore \<bar>naive_tokens - rag_tokens\<bar>]))"
    using assms by (simp add: compare_def truediv_def Let_def)
  show "compare 100 400 =
               Inr [RagTokens 100, NaiveTokens 400, TokenSavings 300 75, RagSaves 300,
                    Efficiency (Finite 4)]"
    by (simp add: compare_def truediv_def Let_def)
qed

theorem compare_positive_costs_witness:
  "(0::int) < 100 \<and> (0::int) < 400 \<and>
   compare 100 400 =
     Inr [RagTokens 100, NaiveTokens 400, TokenSavings 300 75, RagSaves 300, Efficiency (Finite 4)]
   \<and> compare 400 100 =
     Inr [RagTokens 400, NaiveTokens 100, TokenSavings (- 300) (- 300), RagUsesMore 300]"
  using compare_positive_costs [of 100 400] compare_positive_costs [of 400 100] by simp

text \<open>
  C2, as the specification states it, fails: with retrieval cost 0 and naive cost 400
  the comparator prints the incomplete-comparison message and nothing about an
  efficiency ratio, so no unbounded ratio is reported.
\<close>

theorem compare_zero_rag_reports_no_ratio:
  "compare 0 400 = Inr [CouldNotComplete] \<and> Efficiency Infinite \<notin> set [CouldNotComplete]"
  by (simp add: compare_def)

text \<open>
  C2, amended: if either cost is non-positive the comparison is reported as incomplete
  and nothing else is printed about it, in particular no efficiency ratio; for all
  costs the comparator returns a report and raises no division error, and an
  unbounded ratio is never part of a report.
\<close>

theorem compare_incomplete_without_ratio:
  "(rag_tokens \<le> 0 \<or> naive_tokens \<le> 0 \<longrightarrow>
      compare rag_tokens naive_tokens = Inr [CouldNotComplete])
   \<and> (\<exists>report. compare rag_tokens naive_tokens = Inr report
         \<and> Efficiency Infinite \<notin> set report)"
  by (auto simp: compare_def truediv_def Let_def)

theorem compare_incomplete_without_ratio_witness:
  "((0::int) \<le> 0 \<or> (400::int) \<le> 0) \<and> compare 0 400 = Inr [CouldNotComplete]
   \<and> compare 7 0 = Inr [CouldNotComplete]"
  using compare_incomplete_without_ratio [of 0 400] compare_incomplete_without_ratio [of 7 0]
  by simp

section \<open>The parser of the search output\<close>

subsection \<open>Splitting, searching and indexing\<close>

lemma split_on_nonempty: "split_on sep s \<noteq> []"
  by (induction s) (auto split: list.splits)

lemma split_on_absent: "sep \<notin> set a \<Longrightarrow> split_on sep a = [a]"
  by (induction a) auto

lemma split_on_append: "sep \<notin> set a \<Longrightarrow> split_on sep (a @ sep # b) = a # split_on sep b"
  by (induction a) auto

lemma split_on_lines:
  "\<forall>l \<in> set ls. sep \<notin> set l \<Longrightarrow> split_on sep (concat (map (\<lambda>l. l @ [sep]) ls)) = ls @ [[]]"
  by (induction ls) (auto simp: split_on_append)

lemma startswith_Cons: "startswith (p # ps) s = (\<exists>t. s = p # t \<and> startswith ps t)"
  by (cases s) (auto simp: startswith_def)

lemma startswith_Nil: "startswith [] s"
  by (simp add: startswith_def)

lemma str_find_lead:
  "CHR '':'' \<notin> set lead \<Longrightarrow>
     str_find '': '' (lead @ CHR '':'' # CHR '' '' # code) = int (length lead)"
  by (induction lead) (auto simp: startswith_Cons startswith_Nil Let_def)

lemma lines_not_rank: "startswith ''Lines'' s \<Longrightarrow>
  \<not> (startswith ''1.'' s \<or> startswith ''2.'' s \<or> startswith ''3.'' s
      \<or> startswith ''4.'' s \<or> startswith ''5.'' s)"
  by (auto simp: startswith_Cons)

lemma getitem_1: "getitem (a # b # xs) 1 = Inr b"
  by (simp add: getitem_def)

lemma getitem_last: "xs \<noteq> [] \<Longrightarrow> getitem xs (- 1) = Inr (last xs)"
  by (cases xs rule: rev_cases) (auto simp: getitem_def nth_append)

lemma getitem_second: "2 \<le> length xs \<Longrightarrow> \<exists>y. getitem xs 1 = Inr y"
  by (simp add: getitem_def)

subsection \<open>One well-formed entry, then a block of them\<close>

lemma parse_line_header:
  assumes "well_formed e"
  shows "parse_line (cur, chunks) (header_line e)
         = Inr (Some \<lparr>chunk_name = e_name e, chunk_file = e_mid e @ e_file e, chunk_code = []\<rparr>,
                chunks)"
proof -
  have q: "QUOTE \<notin> set (e_pre e)" "QUOTE \<notin> set (e_name e)" "QUOTE \<notin> set (e_mid e @ e_file e)"
    using assms by (auto simp: well_formed_def)
  have parts: "split_on QUOTE (header_line e) = [e_pre e, e_name e, e_mid e @ e_file e]"
    using q by (simp add: header_line_def split_on_append split_on_absent)
  have r: "is_rank_line (header_line e)" "contains ''Score:'' (header_line e)"
    "contains ''in '' (header_line e)"
    using assms by (auto simp: well_formed_def)
  show ?thesis
    by (simp add: r parts getitem_1 getitem_last)
qed

lemma parse_line_body:
  assumes "well_formed e"
  shows "parse_line (Some ch, chunks) (body_line e)
         = Inr (None, chunks @ [ch\<lparr>chunk_code := e_code e\<rparr>])"
proof -
  have l: "startswith ''Lines'' (strip (body_line e))" and c: "CHR '':'' \<notin> set (e_lead e)"
    using assms by (auto simp: well_formed_def)
  have nr: "\<not> is_rank_line (body_line e)"
    using lines_not_rank [OF l] by (simp add: is_rank_line_def)
  have f: "str_find '': '' (body_line e) = int (length (e_lead e))"
    using c by (simp add: body_line_def str_find_lead)
  have d: "drop (nat (int (length (e_lead e)) + 2)) (body_line e) = e_code e"
    by (simp add: body_line_def nat_add_distrib)
  show ?thesis
    using l nr by (simp add: f d)
qed

lemma parse_lines_append:
  "parse_lines st (xs @ ys) =
     (case parse_lines st xs of Inl e \<Rightarrow> Inl e | Inr st' \<Rightarrow> parse_lines st' ys)"
  by (induction xs arbitrary: st) (auto split: sum.splits)

lemma parse_lines_entries:
  assumes "list_all well_formed es"
  shows "parse_lines (None, chunks) (concat (map (\<lambda>e. [header_line e, body_line e]) es))
         = Inr (None, chunks @ map fragment_of es)"
  using assms
proof (induction es arbitrary: chunks)
  case Nil
  show ?case by simp
next
  case (Cons e es)
  then have w: "well_formed e" and ws: "list_all well_formed es"
    by simp_all
  show ?case
    using Cons.IH [OF ws, of "chunks @ [fragment_of e]"]
    by (simp add: parse_line_header [OF w] parse_line_body [OF w] fragment_of_def
        del: parse_line.simps)
qed

lemma parse_line_empty: "parse_line st [] = Inr st"
  by (cases st) (simp add: is_rank_line_def strip_def startswith_def)

lemma block_lines:
  "block es = concat (map (\<lambda>l. l @ [NL]) (concat (map (\<lambda>e. [header_line e, body_line e]) es)))"
  by (induction es) (simp_all add: block_def)

lemma parse_block:
  assumes "list_all well_formed es"
  shows "parse_output (block es) = Inr (map fragment_of es)"
proof -
  have "\<forall>l \<in> set (concat (map (\<lambda>e. [header_line e, body_line e]) es)). NL \<notin> set l"
    using assms by (auto simp: list_all_iff well_formed_def)
  then have "split_on NL (block es) = concat (map (\<lambda>e. [header_line e, body_line e]) es) @ [[]]"
    unfolding block_lines by (rule split_on_lines)
  then show ?thesis
    by (simp add: parse_output_def parse_lines_append parse_lines_entries [OF assms]
        parse_line_empty del: parse_line.simps)
qed

subsection \<open>The parser never raises and only appends fragments\<close>

lemma parse_line_total: "\<exists>c' chunks'. parse_line (c, chunks) line = Inr (c', chunks @ chunks')"
proof -
  have "\<exists>y. getitem (split_on QUOTE line) 1 = Inr y" if "2 \<le> length (split_on QUOTE line)"
    using that by (rule getitem_second)
  moreover have "getitem (split_on QUOTE line) (- 1) = Inr (last (split_on QUOTE line))"
    by (simp add: getitem_last split_on_nonempty)
  ultimately show ?thesis
    by (auto simp: Let_def split: option.splits)
qed

lemma parse_lines_total: "\<exists>c' chunks'. parse_lines (c, chunks) ls = Inr (c', chunks @ chunks')"
proof (induction ls arbitrary: c chunks)
  case Nil
  show ?case by simp
next
  case (Cons l ls)
  obtain c1 ch1 where s: "parse_line (c, chunks) l = Inr (c1, chunks @ ch1)"
    using parse_line_total by blast
  obtain c2 ch2 where "parse_lines (c1, chunks @ ch1) ls = Inr (c2, (chunks @ ch1) @ ch2)"
    using Cons.IH by blast
  then show ?case
    by (simp add: s del: parse_line.simps)
qed

lemma parse_output_total: "\<exists>chunks. parse_output stdout = Inr chunks"
proof -
  obtain c chunks where "parse_lines (None, []) (split_on NL stdout) = Inr (c, [] @ chunks)"
    using parse_lines_total by blast
  then show ?thesis by (simp add: parse_output_def)
qed

lemma split_on_append_sep: "split_on sep (a @ sep # b) = split_on sep a @ split_on sep b"
proof (induction a)
  case Nil
  show ?case by simp
next
  case (Cons c cs)
  obtain w ws where "split_on sep cs = w # ws"
    using split_on_nonempty [of sep cs] by (cases "split_on sep cs") auto
  then show ?case using Cons.IH by simp
qed

lemma length_split_on: "(2 \<le> length (split_on sep s)) = (sep \<in> set s)"
proof (induction s)
  case Nil
  show ?case by simp
next
  case (Cons c cs)
  obtain w ws where "split_on sep cs = w # ws"
    using split_on_nonempty [of sep cs] by (cases "split_on sep cs") auto
  then show ?case using Cons.IH by auto
qed

lemma str_find_contains: "(0 \<le> str_find sub s) = contains sub s"
  by (induction s) (auto simp: Let_def)

lemma code_start_contains: "(1 < str_find sub s + 2) = contains sub s"
  using str_find_contains [of sub s] by auto

lemma parse_line_ignored:
  assumes "\<not> (is_rank_line line \<and> contains ''Score:'' line \<and> QUOTE \<in> set line)"
    and "\<not> (\<not> is_rank_line line \<and> startswith ''Lines'' (strip line) \<and> cur \<noteq> None
            \<and> contains '': '' line)"
  shows "parse_line (cur, chunks) line = Inr (cur, chunks)"
  using assms by (auto simp: Let_def length_split_on code_start_contains split: option.splits)

lemma parse_output_line_prefix:
  "\<exists>chunks further. parse_output s1 = Inr chunks \<and> parse_output (s1 @ NL # s2) = Inr (chunks @ further)"
proof -
  obtain c chunks where 1: "parse_lines (None, []) (split_on NL s1) = Inr (c, [] @ chunks)"
    using parse_lines_total by blast
  obtain c' further where "parse_lines (c, chunks) (split_on NL s2) = Inr (c', chunks @ further)"
    using parse_lines_total by blast
  then have "parse_lines (None, []) (split_on NL (s1 @ NL # s2)) = Inr (c', chunks @ further)"
    using 1 by (simp add: split_on_append_sep parse_lines_append)
  then show ?thesis
    using 1 by (simp add: parse_output_def)
qed

text \<open>
  C4, as the specification states it, fails at four places. The block is the one of five
  entries \<^verbatim>\<open>1. 'alpha' (Score: 0.91) in src/a.rs\<close> / \<^verbatim>\<open>   Lines 1-3: fn alpha() {}\<close>,
  ..., each entry well formed.
  \<^item> Source file: the parser finds the five names and bodies, but the file of each
    fragment is \<^verbatim>\<open>" (Score: 0.91) in src/a.rs"\<close>, not \<^verbatim>\<open>src/a.rs\<close>.
  \<^item> Truncated block: cut after 56 characters, in the middle of the first body line, the
    block yields a fragment with the body \<^verbatim>\<open>fn al\<close>, which is none of the five.
  \<^item> Reordered block: with the lines in the order entry line 1, entry line 2, body
    line 1, body line 2, the parser yields one fragment, named \<^verbatim>\<open>beta\<close> with the
    body of \<^verbatim>\<open>alpha\<close>, which is none of the five.
  \<^item> A line of another shape: \<^verbatim>\<open>5.0 is the top 'Score:' so far\<close> is no ranked entry
    and names no file, yet it is not ignored: with the next line \<^verbatim>\<open>Lines: x\<close> it
    makes a fragment.
\<close>

theorem example_block_deviations:
  "list_all well_formed example_entries
   \<and> parse_output (block example_entries) = Inr example_chunks
   \<and> map chunk_file example_chunks \<noteq> map e_file example_entries
   \<and> parse_output (take 56 (block example_entries))
       = Inr [\<lparr>chunk_name = ''alpha'', chunk_file = '' (Score: 0.91) in src/a.rs'',
               chunk_code = ''fn al''\<rparr>]
   \<and> \<lparr>chunk_name = ''alpha'', chunk_file = '' (Score: 0.91) in src/a.rs'',
       chunk_code = ''fn al''\<rparr> \<notin> set example_chunks
   \<and> parse_output (header_line (example_entries ! 0) @ [NL] @ header_line (example_entries ! 1)
         @ [NL] @ body_line (example_entries ! 0) @ [NL] @ body_line (example_entries ! 1) @ [NL])
       = Inr [\<lparr>chunk_name = ''beta'', chunk_file = '' (Score: 0.72) in src/b.rs'',
               chunk_code = ''fn alpha() {}''\<rparr>]
   \<and> \<lparr>chunk_name = ''beta'', chunk_file = '' (Score: 0.72) in src/b.rs'',
       chunk_code = ''fn alpha() {}''\<rparr> \<notin> set example_chunks
   \<and> parse_output (''5.0 is the top '' @ [QUOTE] @ ''Score:'' @ [QUOTE] @ '' so far'' @ [NL]
         @ ''Lines: x'')
       = Inr [\<lparr>chunk_name = ''Score:'', chunk_file = ''unknown'', chunk_code = ''x''\<rparr>]"
  by code_simp

text \<open>
  C4, amended. For a block of well-formed entries (five, or any number) the parser
  yields exactly one fragment for each entry, in the order of the entries, with the
  name and the body of the entry; nothing is stated of the file of a fragment. A block
  cut after \<open>k\<close> whole entries yields the first \<open>k\<close> of these fragments; a block made
  of the same entries in another order, or of some of them, yields fragments among
  those of the whole block, in the order of its entries. On every text the parser
  returns a list and raises nothing, and the fragments of a text cut at the end of a
  line are a prefix of the fragments of the whole text. A line leaves the state of the
  parser as it is unless it is a rank line (starting, once stripped, with \<^verbatim>\<open>1.\<close> to
  \<^verbatim>\<open>5.\<close>) that contains \<^verbatim>\<open>Score:\<close> and a single quote, or a line that is no rank line,
  starts, once stripped, with \<^verbatim>\<open>Lines\<close>, contains \<^verbatim>\<open>": "\<close> and comes while an entry
  line waits for its body.
\<close>

theorem parse_ranked_block:
  "(list_all well_formed es \<longrightarrow>
      (\<exists>chunks. parse_output (block es) = Inr chunks
         \<and> length chunks = length es
         \<and> map chunk_name chunks = map e_name es
         \<and> map chunk_code chunks = map e_code es
         \<and> parse_output (block (take k es)) = Inr (take k chunks)))
   \<and> (list_all well_formed es \<and> set es' \<subseteq> set es \<longrightarrow>
      (\<exists>chunks chunks'. parse_output (block es) = Inr chunks
         \<and> parse_output (block es') = Inr chunks'
         \<and> set chunks' \<subseteq> set chunks
         \<and> map chunk_name chunks' = map e_name es'
         \<and> map chunk_code chunks' = map e_code es'))
   \<and> (\<exists>chunks further. parse_output s1 = Inr chunks
         \<and> parse_output (s1 @ NL # s2) = Inr (chunks @ further))
   \<and> (\<not> (is_rank_line line \<and> contains ''Score:'' line \<and> QUOTE \<in> set line)
      \<and> \<not> (\<not> is_rank_line line \<and> startswith ''Lines'' (strip line) \<and> cur \<noteq> None
             \<and> contains '': '' line)
      \<longrightarrow> parse_line (cur, acc) line = Inr (cur, acc))"
proof -
  have nm: "map chunk_name (map fragment_of xs) = map e_name xs"
    and cd: "map chunk_code (map fragment_of xs) = map e_code xs" for xs
    by (simp_all add: fragment_of_def)
  have a: "\<exists>chunks. parse_output (block es) = Inr chunks
         \<and> length chunks = length es
         \<and> map chunk_name chunks = map e_name es
         \<and> map chunk_code chunks = map e_code es
         \<and> parse_output (block (take k es)) = Inr (take k chunks)"
    if w: "list_all well_formed es"
  proof -
    have "list_all well_formed (take k es)"
      using w by (auto simp: list_all_iff dest: in_set_takeD)
    then have "parse_output (block (take k es)) = Inr (take k (map fragment_of es))"
      by (simp add: parse_block take_map)
    then show ?thesis
      using parse_block [OF w] nm [of es] cd [of es] by simp
  qed
  have b: "\<exists>chunks chunks'. parse_output (block es) = Inr chunks
         \<and> parse_output (block es') = Inr chunks'
         \<and> set chunks' \<subseteq> set chunks
         \<and> map chunk_name chunks' = map e_name es'
         \<and> map chunk_code chunks' = map e_code es'"
    if h: "list_all well_formed es \<and> set es' \<subseteq> set es"
  proof -
    have w': "list_all well_formed es'"
      using h by (auto simp: list_all_iff)
    have "set (map fragment_of es') \<subseteq> set (map fragment_of es)"
      using h by auto
    then show ?thesis
      using parse_block [of es] parse_block [OF w'] h nm [of es'] cd [of es'] by blast
  qed
  show ?thesis
    using a b parse_output_line_prefix [of s1 s2] parse_line_ignored [of line cur acc] by blast
qed

theorem parse_ranked_block_witness:
  "list_all well_formed example_entries
   \<and> (\<exists>chunks. parse_output (block example_entries) = Inr chunks
        \<and> length chunks = 5
        \<and> map chunk_name chunks = [''alpha'', ''beta'', ''gamma'', ''delta'', ''epsilon'']
        \<and> map chunk_code chunks = [''fn alpha() {}'', ''let b = a: 1;'', ''struct Gamma;'',
                                    ''mod delta;'', ''fn epsilon() {}'']
        \<and> parse_output (block (take 2 example_entries)) = Inr (take 2 chunks))
   \<and> (\<exists>chunks chunks'. parse_output (block example_entries) = Inr chunks
        \<and> parse_output (block (rev example_entries)) = Inr chunks'
        \<and> set chunks' \<subseteq> set chunks
        \<and> map chunk_name chunks' = [''epsilon'', ''delta'', ''gamma'', ''beta'', ''alpha'']
        \<and> map chunk_code chunks' = [''fn epsilon() {}'', ''mod delta;'', ''struct Gamma;'',
                                     ''let b = a: 1;'', ''fn alpha() {}''])
   \<and> parse_line (None, []) ''3. a heading without score'' = Inr (None, [])"
proof -
  have w: "list_all well_formed example_entries"
    by code_simp
  have l: "length example_entries = 5"
    "map e_name example_entries = [''alpha'', ''beta'', ''gamma'', ''delta'', ''epsilon'']"
    "map e_code example_entries = [''fn alpha() {}'', ''let b = a: 1;'', ''struct Gamma;'',
                                    ''mod delta;'', ''fn epsilon() {}'']"
    "map e_name (rev example_entries) = [''epsilon'', ''delta'', ''gamma'', ''beta'', ''alpha'']"
    "map e_code (rev example_entries) = [''fn epsilon() {}'', ''mod delta;'', ''struct Gamma;'',
                                     ''let b = a: 1;'', ''fn alpha() {}'']"
    by (simp_all add: example_entries_def)
  have n: "\<not> contains ''Score:'' ''3. a heading without score''"
    "is_rank_line ''3. a heading without score''"
    by code_simp+
  have s: "set (rev example_entries) \<subseteq> set example_entries"
    by simp
  note t = parse_ranked_block [of example_entries 2 "rev example_entries" "[]" "[]"
        "''3. a heading without score''" None "[]"]
  note t1 = t [THEN conjunct1, THEN mp, OF w, unfolded l]
  note t2 = t [THEN conjunct2, THEN conjunct1, THEN mp, OF conjI [OF w s], unfolded l]
  have h: "\<not> (is_rank_line ''3. a heading without score''
             \<and> contains ''Score:'' ''3. a heading without score''
             \<and> QUOTE \<in> set ''3. a heading without score'')
         \<and> \<not> (\<not> is_rank_line ''3. a heading without score''
             \<and> startswith ''Lines'' (strip ''3. a heading without score'')
             \<and> (None :: chunk option) \<noteq> None
             \<and> contains '': '' ''3. a heading without score'')"
    using n by blast
  note t4 = t [THEN conjunct2, THEN conjunct2, THEN conjunct2, THEN mp, OF h]
  show ?thesis
    using w t1 t2 t4 by (intro conjI)
qed

section \<open>Failures of the external search\<close>

text \<open>
  C5: whatever the query, when the call of the external search raises, or completes
  with a non-zero return code, \<open>run_indexer_search\<close> prints the error and returns the
  empty list; no exception leaves it. Whenever it returns no fragment, the retrieval
  strategy reports that no chunks were found and returns cost 0 with the empty context.
\<close>

theorem search_failure_is_soft:
  "(srch query top_k = Raised e \<longrightarrow>
      run_indexer_search srch query top_k = ([ErrorRunningSearch (str_exn e)], []))
   \<and> (srch query top_k = Completed returncode stdout stderr \<and> returncode \<noteq> 0 \<longrightarrow>
      run_indexer_search srch query top_k = ([ErrorRunningIndexer stderr], []))
   \<and> (snd (run_indexer_search srch query 5) = [] \<longrightarrow>
      snd (benchmark_rag_approach srch query) = (0, [])
      \<and> last (fst (benchmark_rag_approach srch query)) = NoChunksFound)"
  by (auto simp: run_indexer_search_def benchmark_rag_approach_def split: prod.splits)

theorem search_failure_is_soft_witness:
  "run_indexer_search (\<lambda>q k. Raised (OSError ''no cargo'')) ''how'' 5
     = ([ErrorRunningSearch ''no cargo''], [])
   \<and> snd (benchmark_rag_approach (\<lambda>q k. Raised (OSError ''no cargo'')) ''how'') = (0, [])
   \<and> run_indexer_search (\<lambda>q k. Completed 101 ''1. x'' ''error: build failed'') ''how'' 5
     = ([ErrorRunningIndexer ''error: build failed''], [])
   \<and> snd (benchmark_rag_approach (\<lambda>q k. Completed 101 ''1. x'' ''error: build failed'') ''how'')
     = (0, [])"
  using search_failure_is_soft [where srch = "\<lambda>q k. Raised (OSError ''no cargo'')"
      and query = "''how''" and top_k = 5 and e = "OSError ''no cargo''"]
    search_failure_is_soft [where srch = "\<lambda>q k. Completed 101 ''1. x'' ''error: build failed''"
      and query = "''how''" and top_k = 5 and returncode = 101 and stdout = "''1. x''"
      and stderr = "''error: build failed''"]
  by simp

section \<open>The naive strategy\<close>

subsection \<open>Removing duplicates keeps first occurrences\<close>

lemma filter_removeAll_in:
  "x \<in> A \<Longrightarrow> filter (\<lambda>y. y \<notin> A) (removeAll x ys) = filter (\<lambda>y. y \<notin> A) ys"
  by (induction ys) auto

lemma filter_removeAll_insert:
  "filter (\<lambda>y. y \<noteq> x \<and> y \<notin> A) ys = filter (\<lambda>y. y \<notin> A) (removeAll x ys)"
  by (induction ys) auto

lemma foldl_insert_key:
  "foldl insert_key acc xs = acc @ filter (\<lambda>y. y \<notin> set acc) (first_seen xs)"
proof (induction xs arbitrary: acc)
  case Nil
  show ?case by simp
next
  case (Cons x xs)
  show ?case
  proof (cases "x \<in> set acc")
    case True
    then show ?thesis
      using Cons.IH [of acc] by (simp add: insert_key_def filter_removeAll_in)
  next
    case False
    then show ?thesis
      using Cons.IH [of "acc @ [x]"] by (simp add: insert_key_def filter_removeAll_insert)
  qed
qed

lemma dict_fromkeys_first_seen: "dict_fromkeys xs = first_seen xs"
  by (simp add: dict_fromkeys_def foldl_insert_key)

lemma set_first_seen: "set (first_seen xs) = set xs"
  by (induction xs) auto

lemma distinct_first_seen: "distinct (first_seen xs)"
  by (induction xs) (auto simp: distinct_removeAll)

subsection \<open>The classifier as a table of groups\<close>

lemma relevant_files_groups:
  "relevant_files query =
     (if list_ex (group_matches query) keyword_groups
      then union_first_seen (map snd (filter (group_matches query) keyword_groups))
      else default_files)"
proof -
  have a1: "any_word [''cli'', ''command'', ''argument'', ''clap''] (lower query)
            = group_matches query cli_group"
    by (simp add: any_word_def group_matches_def cli_group_def)
  have a2: "any_word [''voice'', ''audio'', ''record''] (lower query)
            = group_matches query voice_group"
    by (simp add: any_word_def group_matches_def voice_group_def)
  have a3: "any_word [''llm'', ''gemini'', ''api''] (lower query) = group_matches query llm_group"
    by (simp add: any_word_def group_matches_def llm_group_def)
  have a4: "any_word [''index'', ''search'', ''chunk'', ''embed''] (lower query)
            = group_matches query index_group"
    by (simp add: any_word_def group_matches_def index_group_def)
  have s1: "snd cli_group = [''src/main.rs'', ''src/bin/indexer.rs'']"
    by (simp add: cli_group_def)
  have s2: "snd voice_group = [''src/voice/mod.rs'', ''src/voice/capture.rs'']"
    by (simp add: voice_group_def)
  have s3: "snd llm_group = [''src/llm/gemini_client.rs'']"
    by (simp add: llm_group_def)
  have s4: "snd index_group = [''src/index/chunker.rs'', ''src/index/embedder.rs'',
                               ''src/index/vector_store.rs'']"
    by (simp add: index_group_def)
  show ?thesis
    unfolding relevant_files_def a1 a2 a3 a4 keyword_groups_def Let_def dict_fromkeys_first_seen
      union_first_seen_def default_files_def
    by (cases "group_matches query cli_group"; cases "group_matches query voice_group";
        cases "group_matches query llm_group"; cases "group_matches query index_group")
       (simp_all add: s1 s2 s3 s4)
qed

text \<open>
  C6, as the specification states it, fails in its last sentence: the query
  \<^verbatim>\<open>"cli index api"\<close> contains a keyword of the "cli" group and one of the "index"
  group, and its candidate list is not the union of the lists of these two groups: the
  keyword \<^verbatim>\<open>api\<close> adds the file of the "llm" group.
\<close>

theorem cli_index_api_counterexample:
  "contains ''cli'' (lower ''cli index api'') \<and> contains ''index'' (lower ''cli index api'')
   \<and> relevant_files ''cli index api'' \<noteq>
        [''src/main.rs'', ''src/bin/indexer.rs'', ''src/index/chunker.rs'',
         ''src/index/embedder.rs'', ''src/index/vector_store.rs'']"
  by code_simp

text \<open>
  C6, amended: the candidate list is a function of the query. When some group matches
  (one of its keywords is a substring of the lower-cased query), it is the union of the
  lists of all matching groups, in the fixed order of the groups, each file once at its
  first occurrence; it has no duplicates. Two queries matched by the same groups have
  the same list, wherever the keywords stand in them. For a query matched by the "cli"
  group and the "index" group and by no other group, the list is the union of the
  lists of these two groups.
\<close>

theorem naive_classification:
  "relevant_files query =
     (if list_ex (group_matches query) keyword_groups
      then union_first_seen (map snd (filter (group_matches query) keyword_groups))
      else default_files)
   \<and> distinct (relevant_files query)
   \<and> (list_all (\<lambda>g. group_matches query g = group_matches query' g) keyword_groups
        \<longrightarrow> relevant_files query = relevant_files query')
   \<and> (group_matches query cli_group \<and> group_matches query index_group
        \<and> \<not> group_matches query voice_group \<and> \<not> group_matches query llm_group
        \<longrightarrow> relevant_files query = union_first_seen [snd cli_group, snd index_group]
            \<and> relevant_files query =
                 [''src/main.rs'', ''src/bin/indexer.rs'', ''src/index/chunker.rs'',
                  ''src/index/embedder.rs'', ''src/index/vector_store.rs''])"
proof -
  have d: "distinct (relevant_files query)"
    by (simp add: relevant_files_def Let_def dict_fromkeys_first_seen distinct_first_seen)
  have o: "list_all (\<lambda>g. group_matches query g = group_matches query' g) keyword_groups
        \<longrightarrow> relevant_files query = relevant_files query'"
    by (simp add: relevant_files_groups keyword_groups_def)
  have c: "group_matches query cli_group \<and> group_matches query index_group
        \<and> \<not> group_matches query voice_group \<and> \<not> group_matches query llm_group
        \<longrightarrow> relevant_files query = union_first_seen [snd cli_group, snd index_group]
            \<and> relevant_files query =
                 [''src/main.rs'', ''src/bin/indexer.rs'', ''src/index/chunker.rs'',
                  ''src/index/embedder.rs'', ''src/index/vector_store.rs'']"
    by (simp add: relevant_files_groups keyword_groups_def union_first_seen_def
        cli_group_def index_group_def)
  show ?thesis using relevant_files_groups [of query] d o c by blast
qed

theorem naive_classification_witness:
  "group_matches ''Index the CLI'' cli_group \<and> group_matches ''Index the CLI'' index_group
   \<and> list_all (\<lambda>g. group_matches ''Index the CLI'' g = group_matches ''a command to search'' g)
         keyword_groups
   \<and> relevant_files ''Index the CLI'' = relevant_files ''a command to search''
   \<and> relevant_files ''Index the CLI'' =
        [''src/main.rs'', ''src/bin/indexer.rs'', ''src/index/chunker.rs'',
         ''src/index/embedder.rs'', ''src/index/vector_store.rs'']"
proof -
  have m: "group_matches ''Index the CLI'' cli_group" "group_matches ''Index the CLI'' index_group"
    "\<not> group_matches ''Index the CLI'' voice_group" "\<not> group_matches ''Index the CLI'' llm_group"
    by code_simp+
  have e: "list_all (\<lambda>g. group_matches ''Index the CLI'' g = group_matches ''a command to search'' g)
         keyword_groups"
    by code_simp
  show ?thesis
    using m e naive_classification [of "''Index the CLI''" "''a command to search''"] by blast
qed

text \<open>
  C7: for every query in which no keyword of any group occurs (in the lower-cased
  query), the candidate list is the default list: \<^verbatim>\<open>src/main.rs\<close>,
  \<^verbatim>\<open>Cargo.toml\<close>, \<^verbatim>\<open>README.md\<close>.
\<close>

theorem no_keyword_default_files:
  assumes "\<not> list_ex (group_matches query) keyword_groups"
  shows "relevant_files query = [''src/main.rs'', ''Cargo.toml'', ''README.md'']"
  using assms by (simp add: relevant_files_groups default_files_def)

theorem no_keyword_default_files_witness:
  "\<not> list_ex (group_matches ''Hello, world'') keyword_groups
   \<and> relevant_files ''Hello, world'' = [''src/main.rs'', ''Cargo.toml'', ''README.md'']"
proof -
  have h: "\<not> list_ex (group_matches ''Hello, world'') keyword_groups"
    by code_simp
  show ?thesis using h no_keyword_default_files [OF h] by simp
qed

subsection \<open>Gathering the files\<close>

lemma foldl_read_file:
  "foldl (read_file fs) (printed, contents) ps =
     (printed @ List.map_filter (warning_of fs) ps, contents @ List.map_filter (entry_of fs) ps)"
proof (induction ps arbitrary: printed contents)
  case Nil
  show ?case by (simp add: List.map_filter_simps)
next
  case (Cons p ps)
  show ?case
    by (cases "fs p") (simp_all add: Cons.IH List.map_filter_simps warning_of_def entry_of_def)
qed

lemma map_filter_entry_files:
  "map fi_file (List.map_filter (entry_of fs) ps) = filter (readable fs) ps"
  by (induction ps) (auto simp: List.map_filter_simps entry_of_def readable_def split: file_state.splits)

text \<open>
  C8: for every list of candidate paths and every state of the files,
  \<open>get_file_contents\<close> returns one entry for each readable path and no other, in the
  order of the candidates, and prints one warning for each path that is missing or
  cannot be read; it always returns (its result has no error case), so no such file
  aborts the run.
\<close>

theorem get_file_contents_partial:
  "get_file_contents fs paths =
     (List.map_filter (warning_of fs) paths, List.map_filter (entry_of fs) paths)
   \<and> map fi_file (snd (get_file_contents fs paths)) = filter (readable fs) paths
   \<and> length (fst (get_file_contents fs paths)) = length (filter (\<lambda>p. \<not> readable fs p) paths)"
proof -
  have g: "get_file_contents fs paths =
     (List.map_filter (warning_of fs) paths, List.map_filter (entry_of fs) paths)"
    by (simp add: get_file_contents_def foldl_read_file)
  have w: "length (List.map_filter (warning_of fs) paths)
           = length (filter (\<lambda>p. \<not> readable fs p) paths)"
    by (induction paths)
       (auto simp: List.map_filter_simps warning_of_def readable_def split: file_state.splits)
  show ?thesis using g w by (simp add: map_filter_entry_files)
qed

theorem get_file_contents_partial_witness:
  "get_file_contents
     (\<lambda>p. if p = ''src/main.rs'' then Readable ''fn main() {}''
          else if p = ''Cargo.toml'' then Missing else Unreadable (OSError ''bad utf-8''))
     [''src/main.rs'', ''Cargo.toml'', ''README.md'', ''src/main.rs'']
   = ([WarningFileNotFound ''Cargo.toml'', ErrorReading ''README.md'' ''bad utf-8''],
      [\<lparr>fi_file = ''src/main.rs'', fi_content = ''fn main() {}'', fi_size = 12\<rparr>,
       \<lparr>fi_file = ''src/main.rs'', fi_content = ''fn main() {}'', fi_size = 12\<rparr>])"
  using get_file_contents_partial
    [of "\<lambda>p. if p = ''src/main.rs'' then Readable ''fn main() {}''
          else if p = ''Cargo.toml'' then Missing else Unreadable (OSError ''bad utf-8'')"
        "[''src/main.rs'', ''Cargo.toml'', ''README.md'', ''src/main.rs'']"]
  by (simp add: List.map_filter_simps warning_of_def entry_of_def)

section \<open>The cost of the naive context\<close>

text \<open>A whitespace character between two texts keeps their tokens apart.\<close>

lemma runs_from_append:
  "runs_from b (xs @ ys) = runs_from b xs + runs_from (if xs = [] then b else isspace (last xs)) ys"
  by (induction xs arbitrary: b) auto

lemma count_tokens_space:
  assumes "isspace c"
  shows "count_tokens (xs @ c # ys) = count_tokens xs + count_tokens ys"
  using assms by (simp add: count_tokens_def length_split_ws runs_from_append)

lemma count_tokens_nonneg: "0 \<le> count_tokens s"
  by (simp add: count_tokens_def)

text \<open>The loop over the files only appends to the context; the header alone has four
  tokens besides those of the query.\<close>

lemma foldl_add_file:
  "\<exists>rest. fst (foldl add_file (ctx, n) fis) = ctx @ rest"
proof (induction fis arbitrary: ctx n)
  case Nil
  show ?case by simp
next
  case (Cons fi fis)
  obtain rest where
    "fst (foldl add_file (ctx @ ''--- File: '' @ fi_file fi @ '' ---'' @ [NL] @ fi_content fi
             @ [NL, NL], n + fi_size fi) fis)
     = (ctx @ ''--- File: '' @ fi_file fi @ '' ---'' @ [NL] @ fi_content fi @ [NL, NL]) @ rest"
    using Cons.IH by blast
  then show ?case by simp
qed

lemma naive_header_tokens:
  "count_tokens ((''Query: '' @ query @ [NL, NL] @ ''Entire file contents:'' @ [NL, NL]) @ rest)
   = 4 + count_tokens query + count_tokens rest"
proof -
  have sp: "isspace CHR '' ''" and nl: "isspace NL"
    by (simp_all add: isspace_def)
  have "(''Query: '' @ query @ [NL, NL] @ ''Entire file contents:'' @ [NL, NL]) @ rest
        = ''Query:'' @ CHR '' '' # (query @ NL # ((NL # ''Entire file contents:'') @ NL # ([] @ NL # rest)))"
    by simp
  then have "count_tokens ((''Query: '' @ query @ [NL, NL] @ ''Entire file contents:'' @ [NL, NL]) @ rest)
        = count_tokens ''Query:'' + (count_tokens query
            + (count_tokens (NL # ''Entire file contents:'') + (count_tokens [] + count_tokens rest)))"
    by (simp only: count_tokens_space [OF sp] count_tokens_space [OF nl])
  moreover have "count_tokens ''Query:'' = 1" "count_tokens (NL # ''Entire file contents:'') = 3"
    "count_tokens [] = 0"
    by (simp_all add: count_tokens_def isspace_def)
  ultimately show ?thesis by simp
qed

lemma naive_tokens_ge_4: "4 \<le> fst (snd (benchmark_naive_approach fs query))"
proof -
  obtain printed file_contents where g: "get_file_contents fs (relevant_files query) = (printed, file_contents)"
    by (cases "get_file_contents fs (relevant_files query)")
  obtain rest where r: "fst (foldl add_file
      (''Query: '' @ query @ [NL, NL] @ ''Entire file contents:'' @ [NL, NL], 0) file_contents)
      = (''Query: '' @ query @ [NL, NL] @ ''Entire file contents:'' @ [NL, NL]) @ rest"
    using foldl_add_file by blast
  have "fst (snd (benchmark_naive_approach fs query))
        = count_tokens (fst (foldl add_file
      (''Query: '' @ query @ [NL, NL] @ ''Entire file contents:'' @ [NL, NL], 0) file_contents))"
    by (simp add: benchmark_naive_approach_def g Let_def split: prod.splits)
  also have "\<dots> = 4 + count_tokens query + count_tokens rest"
    unfolding r by (rule naive_header_tokens)
  finally show ?thesis
    using count_tokens_nonneg [of query] count_tokens_nonneg [of rest] by simp
qed

subsection \<open>The whole run\<close>

lemma rag_tokens_nonneg: "0 \<le> fst (snd (benchmark_rag_approach srch query))"
  by (simp add: benchmark_rag_approach_def count_tokens_nonneg Let_def split: prod.splits)

lemma rag_log_no_incomplete: "CouldNotComplete \<notin> set (fst (benchmark_rag_approach srch query))"
  by (auto simp: benchmark_rag_approach_def run_indexer_search_def Let_def
      split: prod.splits proc_result.splits sum.splits if_splits)

lemma naive_log_no_incomplete: "CouldNotComplete \<notin> set (fst (benchmark_naive_approach fs query))"
proof -
  have "CouldNotComplete \<notin> set (List.map_filter (warning_of fs) ps)" for ps
    by (induction ps) (auto simp: List.map_filter_simps warning_of_def split: file_state.splits)
  then show ?thesis
    by (simp add: benchmark_naive_approach_def get_file_contents_def foldl_read_file Let_def
        split: prod.splits)
qed

lemma compare_complete:
  assumes "0 < rag_tokens" and "0 < naive_tokens"
  shows "\<exists>report. compare rag_tokens naive_tokens = Inr report \<and> CouldNotComplete \<notin> set report"
  using assms by (simp add: compare_def truediv_def Let_def)

lemma compare_incomplete:
  assumes "rag_tokens \<le> 0"
  shows "compare rag_tokens naive_tokens = Inr [CouldNotComplete]"
  using assms by (simp add: compare_def)

lemma main_two_args:
  assumes "env_argv ev = [script, query]"
  shows "main ev =
     (let (rag_log, rag_tokens, rag_context) = benchmark_rag_approach (env_search ev) query;
          (naive_log, naive_tokens, naive_context) = benchmark_naive_approach (env_files ev) query;
          printed = [Rule, Title, Rule, QueryLine query, Blank] @ rag_log @ [Blank]
                    @ naive_log @ [Blank] @ [Rule, ComparisonResults, Rule]
      in case compare rag_tokens naive_tokens of
           Inl e \<Rightarrow> (printed, Uncaught e)
         | Inr report \<Rightarrow>
            (let printed = printed @ report @ [Blank, TokenizerNote]
             in if lower (env_save_contexts ev) \<in> set [''true'', ''1'', ''yes''] then
                  (case env_tempfile ev ''_rag_context.txt'' rag_context of
                     Inl e \<Rightarrow> (printed, Uncaught e)
                   | Inr rag_name \<Rightarrow>
                      (case env_tempfile ev ''_naive_context.txt'' naive_context of
                         Inl e \<Rightarrow> (printed @ [RagContextSavedTo rag_name], Uncaught e)
                       | Inr naive_name \<Rightarrow>
                           (printed @ [RagContextSavedTo rag_name,
                                       NaiveContextSavedTo naive_name], Exit 0)))
                else (printed, Exit 0)))"
  using assms by (simp add: main_def)

text \<open>
  C10: for every query and every state of the files the cost of the naive strategy is
  at least 4, as the naive context always starts with
  \<^verbatim>\<open>"Query: <query>\n\nEntire file contents:\n\n"\<close>. Hence a run with one argument
  prints the incomplete-comparison message exactly when the retrieval cost is 0: the
  naive cost never causes it.
\<close>

theorem naive_cost_at_least_four:
  "4 \<le> fst (snd (benchmark_naive_approach fs query))
   \<and> (env_argv ev = [script, query] \<longrightarrow>
        (CouldNotComplete \<in> set (fst (main ev))
         \<longleftrightarrow> fst (snd (benchmark_rag_approach (env_search ev) query)) = 0))"
proof -
  have "CouldNotComplete \<in> set (fst (main ev))
         \<longleftrightarrow> fst (snd (benchmark_rag_approach (env_search ev) query)) = 0"
    if a: "env_argv ev = [script, query]"
  proof -
    obtain rl rt rc where r: "benchmark_rag_approach (env_search ev) query = (rl, rt, rc)"
      by (cases "benchmark_rag_approach (env_search ev) query") auto
    obtain nl nt nc where n: "benchmark_naive_approach (env_files ev) query = (nl, nt, nc)"
      by (cases "benchmark_naive_approach (env_files ev) query") auto
    have rt0: "0 \<le> rt" using rag_tokens_nonneg [of "env_search ev" query] by (simp add: r)
    have nt4: "4 \<le> nt" using naive_tokens_ge_4 [of "env_files ev" query] by (simp add: n)
    have rl: "CouldNotComplete \<notin> set rl"
      using rag_log_no_incomplete [of "env_search ev" query] by (simp add: r)
    have nl: "CouldNotComplete \<notin> set nl"
      using naive_log_no_incomplete [of "env_files ev" query] by (simp add: n)
    show ?thesis
    proof (cases "rt = 0")
      case True
      then have "compare rt nt = Inr [CouldNotComplete]"
        by (simp add: compare_incomplete)
      then show ?thesis
        using True by (auto simp: main_two_args [OF a] r n Let_def split: sum.splits)
    next
      case False
      then obtain report where "compare rt nt = Inr report" "CouldNotComplete \<notin> set report"
        using compare_complete [of rt nt] rt0 nt4 by auto
      then show ?thesis
        using False rl nl by (auto simp: main_two_args [OF a] r n Let_def split: sum.splits)
    qed
  qed
  then show ?thesis using naive_tokens_ge_4 [of fs query] by blast
qed

theorem naive_cost_at_least_four_witness:
  "env_argv \<lparr>env_argv = [''benchmark_rag.py'', ''hello''],
             env_search = (\<lambda>q k. Completed 1 [] ''no index''), env_files = (\<lambda>p. Missing),
             env_save_contexts = [], env_tempfile = (\<lambda>suffix text. Inr ''/tmp/x'')\<rparr>
     = [''benchmark_rag.py'', ''hello'']
   \<and> 4 \<le> fst (snd (benchmark_naive_approach (\<lambda>p. Missing) ''hello''))
   \<and> CouldNotComplete \<in> set (fst (main
         \<lparr>env_argv = [''benchmark_rag.py'', ''hello''],
          env_search = (\<lambda>q k. Completed 1 [] ''no index''), env_files = (\<lambda>p. Missing),
          env_save_contexts = [], env_tempfile = (\<lambda>suffix text. Inr ''/tmp/x'')\<rparr>))"
proof -
  have "fst (snd (benchmark_rag_approach (\<lambda>q k. Completed 1 [] ''no index'') ''hello'')) = 0"
    by (simp add: benchmark_rag_approach_def run_indexer_search_def)
  then show ?thesis
    using naive_cost_at_least_four [of "\<lambda>p. Missing" "''hello''"
        "\<lparr>env_argv = [''benchmark_rag.py'', ''hello''],
          env_search = (\<lambda>q k. Completed 1 [] ''no index''), env_files = (\<lambda>p. Missing),
          env_save_contexts = [], env_tempfile = (\<lambda>suffix text. Inr ''/tmp/x'')\<rparr>"
        "''benchmark_rag.py''"]
    by simp
qed

section \<open>Exit status\<close>

text \<open>
  With a wrong number of arguments \<open>main\<close> prints the usage text and exits with
  status 1. With one argument and the dump of the contexts switched off it returns,
  whatever the search and the files do. With the dump switched on, an exception of the
  first temporary file is caught nowhere.
\<close>

lemma compare_total: "\<exists>report. compare rag_tokens naive_tokens = Inr report"
  by (simp add: compare_def truediv_def Let_def)

lemma main_wrong_arity:
  assumes "length (env_argv ev) \<noteq> 2"
  shows "main ev = ([Usage, UsageExample], Exit 1)"
  using assms by (auto simp: main_def split: list.splits)

lemma main_exit_zero:
  assumes "env_argv ev = [script, query]"
    and "lower (env_save_contexts ev) \<notin> set [''true'', ''1'', ''yes'']"
  shows "snd (main ev) = Exit 0"
proof -
  obtain rl rt rc where r: "benchmark_rag_approach (env_search ev) query = (rl, rt, rc)"
    by (cases "benchmark_rag_approach (env_search ev) query") auto
  obtain nl nt nc where n: "benchmark_naive_approach (env_files ev) query = (nl, nt, nc)"
    by (cases "benchmark_naive_approach (env_files ev) query") auto
  obtain report where c: "compare rt nt = Inr report"
    using compare_total by blast
  show ?thesis
    using assms(2) by (simp add: main_two_args [OF assms(1)] r n c Let_def)
qed

lemma main_dump_failure:
  assumes "env_argv ev = [script, query]"
    and "lower (env_save_contexts ev) \<in> set [''true'', ''1'', ''yes'']"
    and "\<And>text. env_tempfile ev ''_rag_context.txt'' text = Inl e"
  shows "snd (main ev) = Uncaught e"
proof -
  obtain rl rt rc where r: "benchmark_rag_approach (env_search ev) query = (rl, rt, rc)"
    by (cases "benchmark_rag_approach (env_search ev) query") auto
  obtain nl nt nc where n: "benchmark_naive_approach (env_files ev) query = (nl, nt, nc)"
    by (cases "benchmark_naive_approach (env_files ev) query") auto
  obtain report where c: "compare rt nt = Inr report"
    using compare_total by blast
  show ?thesis
    using assms(2,3) by (simp add: main_two_args [OF assms(1)] r n c Let_def)
qed

text \<open>
  C9 at one run: one argument, \<^verbatim>\<open>SAVE_CONTEXTS=1\<close>, and no directory in which a
  temporary file can be made. The exception of \<^verbatim>\<open>NamedTemporaryFile\<close> leaves
  \<open>main\<close>, and the process ends with status 1, not 0.
\<close>

theorem main_dump_failure_exit_status:
  "snd (main \<lparr>env_argv = [''benchmark_rag.py'', ''hello''],
               env_search = (\<lambda>q k. Completed 1 [] ''no index''), env_files = (\<lambda>p. Missing),
               env_save_contexts = ''1'',
               env_tempfile = (\<lambda>suffix text. Inl (OSError ''No usable temporary directory''))\<rparr>)
     = Uncaught (OSError ''No usable temporary directory'')
   \<and> exit_status (snd (main \<lparr>env_argv = [''benchmark_rag.py'', ''hello''],
               env_search = (\<lambda>q k. Completed 1 [] ''no index''), env_files = (\<lambda>p. Missing),
               env_save_contexts = ''1'',
               env_tempfile = (\<lambda>suffix text. Inl (OSError ''No usable temporary directory''))\<rparr>))
     = 1"
proof -
  have l: "lower ''1'' \<in> set [''true'', ''1'', ''yes'']"
    by (simp add: lower_def lower_char_def)
  show ?thesis
    using main_dump_failure [of "\<lparr>env_argv = [''benchmark_rag.py'', ''hello''],
               env_search = (\<lambda>q k. Completed 1 [] ''no index''), env_files = (\<lambda>p. Missing),
               env_save_contexts = ''1'',
               env_tempfile = (\<lambda>suffix text. Inl (OSError ''No usable temporary directory''))\<rparr>"
             "''benchmark_rag.py''" "''hello''" "OSError ''No usable temporary directory''"] l
    by simp
qed

end
